theory Spec2Isabelle
  imports Main "HOL-Library.Word" "HOL-Library.Sublist"
begin

section \<open>Strings and numbers of the host language\<close>

text \<open>
  A JavaScript string is a sequence of 16-bit code units. The literals of
  \<^verbatim>\<open>main.js\<close> are ASCII except for a few symbols, which are written by
  their code units.
\<close>

type_synonym jschar = "16 word"
type_synonym jsstring = "jschar list"

definition js :: "string \<Rightarrow> jsstring" where
  "js s = map (\<lambda>c. of_nat (of_char c)) s"

text \<open>
  \<^verbatim>\<open>String.prototype.trim\<close> removes the code units of WhiteSpace and
  LineTerminator from both ends.
\<close>

definition isWhiteSpace :: "jschar \<Rightarrow> bool" where
  "isWhiteSpace c \<longleftrightarrow>
     c = 0x09 \<or> c = 0x0A \<or> c = 0x0B \<or> c = 0x0C \<or> c = 0x0D \<or> c = 0x20 \<or> c = 0xA0 \<or>
     c = 0x1680 \<or> (0x2000 \<le> c \<and> c \<le> 0x200A) \<or> c = 0x2028 \<or> c = 0x2029 \<or>
     c = 0x202F \<or> c = 0x205F \<or> c = 0x3000 \<or> c = 0xFEFF"

definition trim :: "jsstring \<Rightarrow> jsstring" where
  "trim s = rev (dropWhile isWhiteSpace (rev (dropWhile isWhiteSpace s)))"

text \<open>
  Numbers: every number of the program is an integer (a clock reading in
  milliseconds, an index, a count), modelled as \<^typ>\<open>int\<close>. JavaScript computes
  with them exactly between \<open>-(2^53 - 1)\<close> and \<open>2^53 - 1\<close>, which holds every
  clock reading (at most \<open>8.64 * 10^15\<close> in absolute value), and prints them in
  decimal.
\<close>

definition isSafeInteger :: "int \<Rightarrow> bool" where
  "isSafeInteger n \<longleftrightarrow> - (2 ^ 53 - 1) \<le> n \<and> n \<le> 2 ^ 53 - 1"

fun digits :: "nat \<Rightarrow> jsstring" where
  "digits n = (if n < 10 then [0x30 + of_nat n] else digits (n div 10) @ [0x30 + of_nat (n mod 10)])"

declare digits.simps [simp del]

definition Number_toString :: "int \<Rightarrow> jsstring" where
  "Number_toString n = (if n < 0 then 0x2D # digits (nat (- n)) else digits (nat n))"

section \<open>JSON\<close>

text \<open>
  The values \<^verbatim>\<open>JSON.parse\<close> returns. An object keeps its members in the
  order of the text.
\<close>

datatype json =
    JNull
  | JBool bool
  | JNum int
  | JStr jsstring
  | JArr "json list"
  | JObj "(jsstring \<times> json) list"

subsection \<open>JSON.stringify\<close>

definition hexDigit :: "nat \<Rightarrow> jschar" where
  "hexDigit d = (if d < 10 then 0x30 + of_nat d else 0x61 + of_nat (d - 10))"

definition UnicodeEscape :: "jschar \<Rightarrow> jsstring" where
  "UnicodeEscape c =
     [0x5C, 0x75, hexDigit (unat c div 4096 mod 16), hexDigit (unat c div 256 mod 16),
      hexDigit (unat c div 16 mod 16), hexDigit (unat c mod 16)]"

definition isLeadSurrogate :: "jschar \<Rightarrow> bool" where
  "isLeadSurrogate c \<longleftrightarrow> 0xD800 \<le> c \<and> c \<le> 0xDBFF"

definition isTrailSurrogate :: "jschar \<Rightarrow> bool" where
  "isTrailSurrogate c \<longleftrightarrow> 0xDC00 \<le> c \<and> c \<le> 0xDFFF"

text \<open>
  QuoteJSONString: the seven characters with a short escape, the other control
  characters and the unpaired surrogates as \<^verbatim>\<open>\uXXXX\<close>, everything
  else as it is.
\<close>

definition quoteUnit :: "jschar \<Rightarrow> jsstring" where
  "quoteUnit c =
     (if c = 0x08 then [0x5C, 0x62]
      else if c = 0x09 then [0x5C, 0x74]
      else if c = 0x0A then [0x5C, 0x6E]
      else if c = 0x0C then [0x5C, 0x66]
      else if c = 0x0D then [0x5C, 0x72]
      else if c = 0x22 then [0x5C, 0x22]
      else if c = 0x5C then [0x5C, 0x5C]
      else if c < 0x20 \<or> isLeadSurrogate c \<or> isTrailSurrogate c then UnicodeEscape c
      else [c])"

fun quoteChars :: "jsstring \<Rightarrow> jsstring" where
  "quoteChars [] = []"
| "quoteChars (c # cs) =
     (if isLeadSurrogate c then
        (case cs of
           [] \<Rightarrow> UnicodeEscape c
         | d # ds \<Rightarrow>
             if isTrailSurrogate d then c # d # quoteChars ds
             else UnicodeEscape c @ quoteChars cs)
      else quoteUnit c @ quoteChars cs)"

definition QuoteJSONString :: "jsstring \<Rightarrow> jsstring" where
  "QuoteJSONString s = [0x22] @ quoteChars s @ [0x22]"

fun joinWith :: "jsstring \<Rightarrow> jsstring list \<Rightarrow> jsstring" where
  "joinWith sep [] = []"
| "joinWith sep [x] = x"
| "joinWith sep (x # y # ys) = x @ sep @ joinWith sep (y # ys)"

fun JSON_stringify :: "json \<Rightarrow> jsstring" where
  "JSON_stringify JNull = js ''null''"
| "JSON_stringify (JBool b) = (if b then js ''true'' else js ''false'')"
| "JSON_stringify (JNum n) = Number_toString n"
| "JSON_stringify (JStr s) = QuoteJSONString s"
| "JSON_stringify (JArr vs) = [0x5B] @ joinWith [0x2C] (map JSON_stringify vs) @ [0x5D]"
| "JSON_stringify (JObj ms) =
     [0x7B] @ joinWith [0x2C] (map (\<lambda>m. QuoteJSONString (fst m) @ [0x3A] @ JSON_stringify (snd m)) ms)
     @ [0x7D]"

subsection \<open>JSON.parse\<close>

text \<open>
  What can go wrong at load: \<^verbatim>\<open>JSON.parse\<close> throws a SyntaxError, a property
  is read from \<^verbatim>\<open>null\<close> or \<^verbatim>\<open>undefined\<close> (a TypeError), or the stored
  value is one the typed model has no value for (a number that is not a safe
  integer, a collection that is not an array of task objects): there the model
  says nothing about the program.
\<close>

datatype error = SyntaxError | TypeError | OutsideModel

definition mapResult :: "('a \<Rightarrow> 'b) \<Rightarrow> error + ('a \<times> jsstring) \<Rightarrow> error + ('b \<times> jsstring)" where
  "mapResult f r = (case r of Inl e \<Rightarrow> Inl e | Inr (x, rest) \<Rightarrow> Inr (f x, rest))"

definition isJSONWhiteSpace :: "jschar \<Rightarrow> bool" where
  "isJSONWhiteSpace c \<longleftrightarrow> c = 0x09 \<or> c = 0x0A \<or> c = 0x0D \<or> c = 0x20"

definition skipWS :: "jsstring \<Rightarrow> jsstring" where
  "skipWS s = dropWhile isJSONWhiteSpace s"

definition isDigit :: "jschar \<Rightarrow> bool" where
  "isDigit c \<longleftrightarrow> 0x30 \<le> c \<and> c \<le> 0x39"

definition hexValue :: "jschar \<Rightarrow> nat option" where
  "hexValue c =
     (if 0x30 \<le> c \<and> c \<le> 0x39 then Some (unat c - 0x30)
      else if 0x61 \<le> c \<and> c \<le> 0x66 then Some (unat c - 0x61 + 10)
      else if 0x41 \<le> c \<and> c \<le> 0x46 then Some (unat c - 0x41 + 10)
      else None)"

definition hex4Value :: "jschar \<Rightarrow> jschar \<Rightarrow> jschar \<Rightarrow> jschar \<Rightarrow> jschar option" where
  "hex4Value h1 h2 h3 h4 =
     (case (hexValue h1, hexValue h2, hexValue h3, hexValue h4) of
        (Some a, Some b, Some c, Some d) \<Rightarrow> Some (of_nat (((a * 16 + b) * 16 + c) * 16 + d))
      | _ \<Rightarrow> None)"

text \<open>The characters of a string literal, after its opening quote.\<close>

fun parseStringChars :: "jsstring \<Rightarrow> error + (jsstring \<times> jsstring)" where
  "parseStringChars [] = Inl SyntaxError"
| "parseStringChars (c # cs) =
     (if c = 0x22 then Inr ([], cs)
      else if c < 0x20 then Inl SyntaxError
      else if c = 0x5C then
        (case cs of
           [] \<Rightarrow> Inl SyntaxError
         | e # cs' \<Rightarrow>
             if e = 0x22 then mapResult ((#) 0x22) (parseStringChars cs')
             else if e = 0x5C then mapResult ((#) 0x5C) (parseStringChars cs')
             else if e = 0x2F then mapResult ((#) 0x2F) (parseStringChars cs')
             else if e = 0x62 then mapResult ((#) 0x08) (parseStringChars cs')
             else if e = 0x66 then mapResult ((#) 0x0C) (parseStringChars cs')
             else if e = 0x6E then mapResult ((#) 0x0A) (parseStringChars cs')
             else if e = 0x72 then mapResult ((#) 0x0D) (parseStringChars cs')
             else if e = 0x74 then mapResult ((#) 0x09) (parseStringChars cs')
             else if e = 0x75 then
               (case cs' of
                  h1 # h2 # h3 # h4 # cs'' \<Rightarrow>
                    (case hex4Value h1 h2 h3 h4 of
                       None \<Rightarrow> Inl SyntaxError
                     | Some u \<Rightarrow> mapResult ((#) u) (parseStringChars cs''))
                | _ \<Rightarrow> Inl SyntaxError)
             else Inl SyntaxError)
      else mapResult ((#) c) (parseStringChars cs))"

definition digitsValue :: "jsstring \<Rightarrow> nat" where
  "digitsValue ds = foldl (\<lambda>a c. 10 * a + (unat c - 0x30)) 0 ds"

text \<open>
  A number literal. Where a fraction or an exponent begins, or when the integer
  is beyond the safe integers, the model stops with \<open>OutsideModel\<close>: it has no
  value for such a number, and does not say whether the rest of the text is
  well-formed.
\<close>

definition parseNumber :: "jsstring \<Rightarrow> error + (int \<times> jsstring)" where
  "parseNumber s =
     (let negative = (case s of [] \<Rightarrow> False | c # cs \<Rightarrow> c = 0x2D);
          s1 = (if negative then tl s else s);
          ds = takeWhile isDigit s1;
          rest = dropWhile isDigit s1;
          n = int (digitsValue ds)
      in if ds = [] then Inl SyntaxError
         else if hd ds = 0x30 \<and> 1 < length ds then Inl SyntaxError
         else if (case rest of [] \<Rightarrow> False | c # cs \<Rightarrow> c = 0x2E \<or> c = 0x65 \<or> c = 0x45) then Inl OutsideModel
         else if \<not> isSafeInteger n then Inl OutsideModel
         else Inr (if negative then - n else n, rest))"

definition parseLiteral :: "jsstring \<Rightarrow> json \<Rightarrow> jsstring \<Rightarrow> error + (json \<times> jsstring)" where
  "parseLiteral word v s =
     (if take (length word) s = word then Inr (v, drop (length word) s) else Inl SyntaxError)"

text \<open>
  The grammar of values. \<open>parseValue\<close> skips white space, reads one value and
  returns what follows it; \<open>parseElements\<close> and \<open>parseMembers\<close> read the
  elements of an array and the members of an object up to the closing bracket.
  The tests on lengths only say that the input got shorter, which is always so:
  the equations hold without them (\<open>parseElements_unguarded\<close>,
  \<open>parseMembers_unguarded\<close>).
\<close>

function parseValue :: "jsstring \<Rightarrow> error + (json \<times> jsstring)"
  and parseElements :: "jsstring \<Rightarrow> error + (json list \<times> jsstring)"
  and parseMembers :: "jsstring \<Rightarrow> error + ((jsstring \<times> json) list \<times> jsstring)"
where
  "parseValue s =
     (case skipWS s of
        [] \<Rightarrow> Inl SyntaxError
      | c # cs \<Rightarrow>
          if c = 0x5B then
            (case skipWS cs of
               [] \<Rightarrow> Inl SyntaxError
             | d # ds \<Rightarrow> if d = 0x5D then Inr (JArr [], ds) else mapResult JArr (parseElements cs))
          else if c = 0x7B then
            (case skipWS cs of
               [] \<Rightarrow> Inl SyntaxError
             | d # ds \<Rightarrow> if d = 0x7D then Inr (JObj [], ds) else mapResult JObj (parseMembers cs))
          else if c = 0x22 then mapResult JStr (parseStringChars cs)
          else if c = 0x74 then parseLiteral (js ''true'') (JBool True) (c # cs)
          else if c = 0x66 then parseLiteral (js ''false'') (JBool False) (c # cs)
          else if c = 0x6E then parseLiteral (js ''null'') JNull (c # cs)
          else if c = 0x2D \<or> isDigit c then mapResult JNum (parseNumber (c # cs))
          else Inl SyntaxError)"
| "parseElements s =
     (case parseValue s of
        Inl e \<Rightarrow> Inl e
      | Inr (v, rest) \<Rightarrow>
          (case skipWS rest of
             [] \<Rightarrow> Inl SyntaxError
           | c # cs \<Rightarrow>
               if c = 0x5D then Inr ([v], cs)
               else if c = 0x2C \<and> length cs < length s then mapResult ((#) v) (parseElements cs)
               else Inl SyntaxError))"
| "parseMembers s =
     (case skipWS s of
        [] \<Rightarrow> Inl SyntaxError
      | q # s1 \<Rightarrow>
          if q \<noteq> 0x22 then Inl SyntaxError
          else
            (case parseStringChars s1 of
               Inl e \<Rightarrow> Inl e
             | Inr (k, rest) \<Rightarrow>
                 (case skipWS rest of
                    [] \<Rightarrow> Inl SyntaxError
                  | c # cs \<Rightarrow>
                      if c = 0x3A \<and> length cs < length s then
                        (case parseValue cs of
                           Inl e \<Rightarrow> Inl e
                         | Inr (v, rest') \<Rightarrow>
                             (case skipWS rest' of
                                [] \<Rightarrow> Inl SyntaxError
                              | c' # cs' \<Rightarrow>
                                  if c' = 0x7D then Inr ([(k, v)], cs')
                                  else if c' = 0x2C \<and> length cs' < length s then
                                    mapResult ((#) (k, v)) (parseMembers cs')
                                  else Inl SyntaxError))
                      else Inl SyntaxError)))"
  by pat_completeness auto
termination
proof -
  have shorter: "length ds < length cs" if "skipWS cs = d # ds" for cs ds :: jsstring and d
    using that length_dropWhile_le [of isJSONWhiteSpace cs] by (simp add: skipWS_def)
  show ?thesis
    by (relation "measure (\<lambda>x. case x of Inl s \<Rightarrow> 2 * length s | Inr (Inl s) \<Rightarrow> 2 * length s + 1
                                     | Inr (Inr s) \<Rightarrow> 2 * length s + 1)")
       (auto dest: shorter)
qed

declare parseValue.simps [simp del] parseElements.simps [simp del] parseMembers.simps [simp del]

definition JSON_parse :: "jsstring \<Rightarrow> error + json" where
  "JSON_parse s =
     (case parseValue s of
        Inl e \<Rightarrow> Inl e
      | Inr (v, rest) \<Rightarrow> if skipWS rest = [] then Inr v else Inl SyntaxError)"

section \<open>The data model\<close>

text \<open>
  A task, as \<^verbatim>\<open>addTodo\<close> and \<^verbatim>\<open>loadData\<close> build it:
  \<^verbatim>\<open>{ id, text, completed, createdAt }\<close>.
\<close>

record task =
  task_id :: int
  task_text :: jsstring
  completed :: bool
  createdAt :: jsstring

definition json_of_task :: "task \<Rightarrow> json" where
  "json_of_task todo =
     JObj [(js ''id'', JNum (task_id todo)), (js ''text'', JStr (task_text todo)),
           (js ''completed'', JBool (completed todo)), (js ''createdAt'', JStr (createdAt todo))]"

definition task_of_json :: "json \<Rightarrow> task option" where
  "task_of_json j =
     (case j of
        JObj [m1, m2, m3, m4] \<Rightarrow>
          (case (snd m1, snd m2, snd m3, snd m4) of
             (JNum i, JStr t, JBool b, JStr c) \<Rightarrow>
               if fst m1 = js ''id'' \<and> fst m2 = js ''text'' \<and> fst m3 = js ''completed''
                  \<and> fst m4 = js ''createdAt''
               then Some \<lparr>task_id = i, task_text = t, completed = b, createdAt = c\<rparr>
               else None
           | _ \<Rightarrow> None)
      | _ \<Rightarrow> None)"

definition todos_of_json :: "json \<Rightarrow> error + task list" where
  "todos_of_json j =
     (case j of
        JArr vs \<Rightarrow>
          if list_all (\<lambda>v. task_of_json v \<noteq> None) vs then Inr (map (\<lambda>v. the (task_of_json v)) vs)
          else Inl OutsideModel
      | _ \<Rightarrow> Inl OutsideModel)"

text \<open>
  The legacy shape \<^verbatim>\<open>{ todo: [string], completed: [string] }\<close>. Reading
  \<^verbatim>\<open>parsed.todo.forEach\<close> throws a TypeError unless \<^verbatim>\<open>parsed\<close> is an
  object whose \<^verbatim>\<open>todo\<close> is an array, and likewise for \<^verbatim>\<open>completed\<close>; of
  a repeated key the last member counts.
\<close>

definition getProperty :: "json \<Rightarrow> jsstring \<Rightarrow> json option" where
  "getProperty j k = (case j of JObj ms \<Rightarrow> map_of (rev ms) k | _ \<Rightarrow> None)"

definition strings_of_json :: "json list \<Rightarrow> error + jsstring list" where
  "strings_of_json vs =
     (if list_all (\<lambda>v. case v of JStr t \<Rightarrow> True | _ \<Rightarrow> False) vs
      then Inr (map (\<lambda>v. case v of JStr t \<Rightarrow> t | _ \<Rightarrow> []) vs)
      else Inl OutsideModel)"

definition legacy_of_json :: "json \<Rightarrow> error + (jsstring list \<times> jsstring list)" where
  "legacy_of_json parsed =
     (case (getProperty parsed (js ''todo''), getProperty parsed (js ''completed'')) of
        (Some (JArr ts), Some (JArr cs)) \<Rightarrow>
          (case (strings_of_json ts, strings_of_json cs) of
             (Inr todo, Inr done) \<Rightarrow> Inr (todo, done)
           | _ \<Rightarrow> Inl OutsideModel)
      | _ \<Rightarrow> Inl TypeError)"

section \<open>The environment\<close>

text \<open>
  The clock and the date functions of the platform. \<open>Date_now P n\<close> is the time
  value, in milliseconds, of the \<open>n\<close>-th reading of the clock
  (\<^verbatim>\<open>Date.now()\<close> and \<^verbatim>\<open>new Date()\<close> both read it); \<open>toISOString\<close> and
  \<open>toDateString\<close> print a time value, the second as the local calendar day;
  \<open>Date_parse\<close> is \<^verbatim>\<open>new Date(string)\<close>, \<open>None\<close> for an invalid date.
\<close>

record platform =
  Date_now :: "nat \<Rightarrow> int"
  toISOString :: "int \<Rightarrow> jsstring"
  toDateString :: "int \<Rightarrow> jsstring"
  Date_parse :: "jsstring \<Rightarrow> int option"

text \<open>
  The state of the application: the fields of \<^verbatim>\<open>TodoApp\<close>, the storage, what
  the page shows (the value of the input, the markup of the list and the
  \<^verbatim>\<open>data-id\<close> attributes of its rows, the statistics line), the callbacks
  \<^verbatim>\<open>setTimeout\<close> holds, and how often the clock was read. The theme touches
  neither the collection nor its storage key and is left out.
\<close>

record app =
  todos :: "task list"
  currentSection :: jsstring
  localStorage :: "jsstring \<rightharpoonup> jsstring"
  todoInput_value :: jsstring
  todoList_innerHTML :: jsstring
  todoList_dataIds :: "int list"
  stats_textContent :: jsstring
  timeouts :: "int list"
  ticks :: nat

definition readClock :: "platform \<Rightarrow> app \<Rightarrow> int \<times> app" where
  "readClock P s = (Date_now P (ticks s), s\<lparr>ticks := Suc (ticks s)\<rparr>)"

definition dateString :: "platform \<Rightarrow> jsstring \<Rightarrow> jsstring" where
  "dateString P str =
     (case Date_parse P str of None \<Rightarrow> js ''Invalid Date'' | Some t \<Rightarrow> toDateString P t)"

definition truthy :: "jsstring option \<Rightarrow> bool" where
  "truthy v = (case v of None \<Rightarrow> False | Some str \<Rightarrow> str \<noteq> [])"

section \<open>The operations of TodoApp\<close>

definition save :: "app \<Rightarrow> app" where
  "save s =
     s\<lparr>localStorage := (localStorage s)(js ''todos'' \<mapsto> JSON_stringify (JArr (map json_of_task (todos s))))\<rparr>"

definition getFilteredTodos :: "platform \<Rightarrow> app \<Rightarrow> task list \<times> app" where
  "getFilteredTodos P s =
     (let (now, s1) = readClock P s;
          today = toDateString P now
      in (if currentSection s = js ''today'' then
            filter (\<lambda>todo. dateString P (createdAt todo) = today \<and> \<not> completed todo) (todos s)
          else if currentSection s = js ''completed'' then filter (\<lambda>todo. completed todo) (todos s)
          else filter (\<lambda>todo. \<not> completed todo) (todos s),
          s1))"

text \<open>
  \<^verbatim>\<open>escapeHtml\<close> sets the text of a fresh element and reads its markup back:
  the serialisation of a text node replaces \<^verbatim>\<open>&\<close>, the no-break space,
  \<^verbatim>\<open><\<close> and \<^verbatim>\<open>>\<close>.
\<close>

definition escapeUnit :: "jschar \<Rightarrow> jsstring" where
  "escapeUnit c =
     (if c = 0x26 then js ''&amp;''
      else if c = 0xA0 then js ''&nbsp;''
      else if c = 0x3C then js ''&lt;''
      else if c = 0x3E then js ''&gt;''
      else [c])"

definition escapeHtml :: "jsstring \<Rightarrow> jsstring" where
  "escapeHtml str = concat (map escapeUnit str)"

definition plural :: "nat \<Rightarrow> jsstring" where
  "plural n = (if n \<noteq> 1 then js ''s'' else [])"

definition updateStats :: "platform \<Rightarrow> app \<Rightarrow> app" where
  "updateStats P s =
     (let total = length (todos s);
          completedCount = length (filter (\<lambda>todo. completed todo) (todos s));
          pending = total - completedCount;
          (now, s1) = readClock P s;
          today = toDateString P now;
          todayTasks = length (filter (\<lambda>todo. dateString P (createdAt todo) = today \<and> \<not> completed todo) (todos s))
      in s1\<lparr>stats_textContent :=
           (if total = 0 then js ''0 tasks''
            else if currentSection s = js ''today'' then
              Number_toString (int todayTasks) @ js '' task'' @ plural todayTasks @ js '' for today''
            else if currentSection s = js ''completed'' then
              Number_toString (int completedCount) @ js '' completed task'' @ plural completedCount
            else
              Number_toString (int total) @ js '' task'' @ plural total @ js '' '' @ [0x2022] @ js '' ''
              @ Number_toString (int completedCount) @ js '' completed '' @ [0x2022] @ js '' ''
              @ Number_toString (int pending) @ js '' pending'')\<rparr>)"

text \<open>
  The markup \<^verbatim>\<open>render\<close> writes: one block per task shown, or the message of
  the section when nothing is shown. \<^verbatim>\<open>emptyMessages[currentSection]\<close> also
  finds the properties every object inherits, whose \<^verbatim>\<open>emoji\<close> and
  \<^verbatim>\<open>text\<close> are undefined.
\<close>

definition indent :: "nat \<Rightarrow> jsstring" where
  "indent n = replicate n 0x20"

definition todoItemHTML :: "task \<Rightarrow> jsstring" where
  \<open>todoItemHTML todo =
     [0x0A] @ indent 8 @ js ''<div class="todo-item '' @ (if completed todo then js ''completed'' else [])
       @ js ''" data-id="'' @ Number_toString (task_id todo) @ js ''">'' @ [0x0A]
     @ indent 10 @ js ''<div class="todo-checkbox '' @ (if completed todo then js ''checked'' else [])
       @ js ''" '' @ [0x0A]
     @ indent 15 @ js ''onclick="app.toggleTodo('' @ Number_toString (task_id todo) @ js '')">'' @ [0x0A]
     @ indent 12 @ (if completed todo then [0x2713] else []) @ [0x0A]
     @ indent 10 @ js ''</div>'' @ [0x0A]
     @ indent 10 @ js ''<div class="todo-text">'' @ escapeHtml (task_text todo) @ js ''</div>'' @ [0x0A]
     @ indent 10 @ js ''<button class="delete-btn" onclick="app.deleteTodo('' @ Number_toString (task_id todo)
       @ js '')">'' @ [0x0A]
     @ indent 12 @ [0x2715] @ [0x0A]
     @ indent 10 @ js ''</button>'' @ [0x0A]
     @ indent 8 @ js ''</div>'' @ [0x0A]
     @ indent 6\<close>

definition inheritedProperty :: "jsstring \<Rightarrow> bool" where
  "inheritedProperty k \<longleftrightarrow>
     k \<in> set (map js [''constructor'', ''__proto__'', ''hasOwnProperty'', ''isPrototypeOf'',
       ''propertyIsEnumerable'', ''toLocaleString'', ''toString'', ''valueOf'', ''__defineGetter__'',
       ''__defineSetter__'', ''__lookupGetter__'', ''__lookupSetter__''])"

definition emptyMessage :: "jsstring \<Rightarrow> jsstring \<times> jsstring" where
  "emptyMessage section =
     (if section = js ''today'' then ([0xD83D, 0xDCC5], js ''No tasks for today. Add one above!'')
      else if section = js ''completed'' then ([0x2705], js ''No completed tasks yet.'')
      else if inheritedProperty section then (js ''undefined'', js ''undefined'')
      else ([0xD83C, 0xDF1F], js ''No tasks yet. Add one above to get started!''))"

definition emptyStateHTML :: "jsstring \<Rightarrow> jsstring" where
  \<open>emptyStateHTML section =
     [0x0A] @ indent 8 @ js ''<div class="empty-state">'' @ [0x0A]
     @ indent 10 @ js ''<div>'' @ fst (emptyMessage section) @ js ''</div>'' @ [0x0A]
     @ indent 10 @ js ''<p>'' @ snd (emptyMessage section) @ js ''</p>'' @ [0x0A]
     @ indent 8 @ js ''</div>'' @ [0x0A]
     @ indent 6\<close>

definition render :: "platform \<Rightarrow> app \<Rightarrow> app" where
  "render P s =
     (let (filteredTodos, s1) = getFilteredTodos P s;
          s2 = (if length filteredTodos = 0 then
                  s1\<lparr>todoList_innerHTML := emptyStateHTML (currentSection s1), todoList_dataIds := []\<rparr>
                else
                  s1\<lparr>todoList_innerHTML := concat (map todoItemHTML filteredTodos),
                     todoList_dataIds := map task_id filteredTodos\<rparr>)
      in updateStats P s2)"

text \<open>
  \<^verbatim>\<open>loadData\<close>. The two \<^verbatim>\<open>forEach\<close> loops of the migration push one task
  per text, reading the clock twice for each (for the id and for
  \<^verbatim>\<open>createdAt\<close>); the second loop adds 1000 to the id.
\<close>

fun pushAll :: "platform \<Rightarrow> bool \<Rightarrow> int \<Rightarrow> nat \<Rightarrow> jsstring list \<Rightarrow> app \<Rightarrow> app" where
  "pushAll P done offset index [] s = s"
| "pushAll P done offset index (txt # texts) s =
     (let (t1, s1) = readClock P s;
          (t2, s2) = readClock P s1;
          todo = \<lparr>task_id = t1 + offset + int index, task_text = txt, completed = done,
                  createdAt = toISOString P t2\<rparr>
      in pushAll P done offset (Suc index) texts (s2\<lparr>todos := todos s2 @ [todo]\<rparr>))"

definition loadData :: "platform \<Rightarrow> app \<Rightarrow> error + app" where
  "loadData P s =
     (let newData = localStorage s (js ''todos'') in
      if truthy newData then
        (case JSON_parse (the newData) of
           Inl e \<Rightarrow> Inl e
         | Inr v \<Rightarrow> (case todos_of_json v of Inl e \<Rightarrow> Inl e | Inr ts \<Rightarrow> Inr (s\<lparr>todos := ts\<rparr>)))
      else
        (let oldData = localStorage s (js ''todoList'') in
         if truthy oldData then
           (case JSON_parse (the oldData) of
              Inl e \<Rightarrow> Inl e
            | Inr parsed \<Rightarrow>
                (case legacy_of_json parsed of
                   Inl e \<Rightarrow> Inl e
                 | Inr (todo, done) \<Rightarrow>
                     (let s1 = pushAll P False 0 0 todo (s\<lparr>todos := []\<rparr>);
                          s2 = pushAll P True 1000 0 done s1;
                          s3 = save s2
                      in Inr (s3\<lparr>localStorage := (localStorage s3)(js ''todoList'' := None)\<rparr>))))
         else Inr (s\<lparr>todos := []\<rparr>)))"

text \<open>
  The constructor: load, then \<^verbatim>\<open>init\<close>, which renders the section
  \<^verbatim>\<open>all\<close>. \<open>pageLoaded\<close> is the page before the script runs: nothing
  typed, nothing shown, no callback left, the clock not yet read.
\<close>

definition pageLoaded :: "(jsstring \<rightharpoonup> jsstring) \<Rightarrow> app" where
  "pageLoaded storage =
     \<lparr>todos = [], currentSection = js ''all'', localStorage = storage, todoInput_value = [],
      todoList_innerHTML = [], todoList_dataIds = [], stats_textContent = [], timeouts = [],
      ticks = 0\<rparr>"

definition TodoApp :: "platform \<Rightarrow> (jsstring \<rightharpoonup> jsstring) \<Rightarrow> error + app" where
  "TodoApp P storage =
     (case loadData P (pageLoaded storage) of
        Inl e \<Rightarrow> Inl e
      | Inr s \<Rightarrow> Inr (render P (s\<lparr>currentSection := js ''all''\<rparr>)))"

definition addTodo :: "platform \<Rightarrow> app \<Rightarrow> app" where
  "addTodo P s =
     (let txt = trim (todoInput_value s) in
      if txt = [] then s
      else
        (let (t1, s1) = readClock P s;
             (t2, s2) = readClock P s1;
             todo = \<lparr>task_id = t1, task_text = txt, completed = False, createdAt = toISOString P t2\<rparr>
         in render P (save (s2\<lparr>todos := todo # todos s2, todoInput_value := []\<rparr>))))"

definition toggleTodo :: "platform \<Rightarrow> int \<Rightarrow> app \<Rightarrow> app" where
  "toggleTodo P i s =
     render P (save (s\<lparr>todos :=
       map (\<lambda>todo. if task_id todo = i then todo\<lparr>completed := \<not> completed todo\<rparr> else todo) (todos s)\<rparr>))"

text \<open>
  \<^verbatim>\<open>deleteTodo\<close> looks for the row with the id on the page; when there is one
  it leaves a callback with \<^verbatim>\<open>setTimeout\<close>, and \<open>deleteTodo_timeout\<close> is what
  the callback does 300 ms later. The callbacks all wait equally long, so they
  run in the order they were left.
\<close>

definition deleteTodo :: "int \<Rightarrow> app \<Rightarrow> app" where
  "deleteTodo i s = (if i \<in> set (todoList_dataIds s) then s\<lparr>timeouts := timeouts s @ [i]\<rparr> else s)"

definition deleteTodo_timeout :: "platform \<Rightarrow> int \<Rightarrow> app \<Rightarrow> app" where
  "deleteTodo_timeout P i s =
     render P (save (s\<lparr>todos := filter (\<lambda>todo. task_id todo \<noteq> i) (todos s)\<rparr>))"

definition runTimeout :: "platform \<Rightarrow> app \<Rightarrow> app" where
  "runTimeout P s =
     (case timeouts s of [] \<Rightarrow> s | i # rest \<Rightarrow> deleteTodo_timeout P i (s\<lparr>timeouts := rest\<rparr>))"

definition switchSection :: "platform \<Rightarrow> jsstring \<Rightarrow> app \<Rightarrow> app" where
  "switchSection P section s = render P (s\<lparr>currentSection := section\<rparr>)"

text \<open>
  What can happen to a running application: the user edits the input, asks to
  add, toggles or deletes a row, picks a section, or a delayed removal runs.
\<close>

datatype event = Input jsstring | Add | Toggle int | Delete int | Timeout | Section jsstring

fun step :: "platform \<Rightarrow> app \<Rightarrow> event \<Rightarrow> app" where
  "step P s (Input v) = s\<lparr>todoInput_value := v\<rparr>"
| "step P s Add = addTodo P s"
| "step P s (Toggle i) = toggleTodo P i s"
| "step P s (Delete i) = deleteTodo i s"
| "step P s Timeout = runTimeout P s"
| "step P s (Section c) = switchSection P c s"

definition run :: "platform \<Rightarrow> app \<Rightarrow> event list \<Rightarrow> app" where
  "run P s evs = foldl (step P) s evs"

text \<open>
  The states the application can be in: the one the constructor builds from
  some storage, and every state an event leads to from there.
\<close>

inductive reachable :: "platform \<Rightarrow> app \<Rightarrow> bool" for P :: platform where
  start: "TodoApp P storage = Inr s \<Longrightarrow> reachable P s"
| after: "reachable P s \<Longrightarrow> reachable P (step P s e)"

section \<open>Notions used to state the properties\<close>



text \<open>Where a number literal ends: at the end of the text or before a character that cannot continue it.\<close>

definition numberEnds :: "jsstring \<Rightarrow> bool" where
  "numberEnds rest =
     (case rest of [] \<Rightarrow> True | c # cs \<Rightarrow> \<not> isDigit c \<and> c \<noteq> 0x2E \<and> c \<noteq> 0x65 \<and> c \<noteq> 0x45)"


text \<open>
  Platforms and storages to run the application on: a platform with a given
  clock, in a time zone where every time value it meets falls on 14 November
  2023, and the storage an earlier version of the application left behind.
\<close>

definition platformAt :: "(nat \<Rightarrow> int) \<Rightarrow> platform" where
  "platformAt clock =
     \<lparr>Date_now = clock,
      toISOString = (\<lambda>t. js ''2023-11-14T22:13:20.000Z''),
      toDateString = (\<lambda>t. js ''Tue Nov 14 2023''),
      Date_parse = (\<lambda>str. if str = js ''2023-11-14T22:13:20.000Z'' then Some 1700000000000 else None)\<rparr>"

definition legacyStorage :: "jsstring \<Rightarrow> (jsstring \<rightharpoonup> jsstring)" where
  "legacyStorage old = [js ''todoList'' \<mapsto> old]"

text \<open>
  A session on an empty storage, the clock one millisecond further at every
  reading (for an hour of readings): two tasks are added and the first of them
  is then completed.
\<close>

definition tickingPlatform :: platform where
  "tickingPlatform = platformAt (\<lambda>n. 1700000000000 + int (min n 3600000))"

definition startState :: "platform \<Rightarrow> app" where
  "startState P = render P (pageLoaded Map.empty)"

definition exampleSession :: app where
  "exampleSession =
     run tickingPlatform (startState tickingPlatform)
       [Input (js ''  buy milk  ''), Add, Input (js ''call mom''), Add, Toggle 1700000000002]"

text \<open>
  Two more clocks: one that shows the same millisecond at every reading, as
  within a burst of events, and one that is read four times in the millisecond
  the page loads and then again a second later.
\<close>

definition stalledPlatform :: platform where
  "stalledPlatform = platformAt (\<lambda>n. 1700000000000)"

definition secondLaterPlatform :: platform where
  "secondLaterPlatform = platformAt (\<lambda>n. if n < 4 then 1700000000000 else 1700000001000)"

section \<open>Properties\<close>

subsection \<open>Fields the operations leave alone\<close>

lemma readClock_simps [simp]:
  "fst (readClock P s) = Date_now P (ticks s)"
  "snd (readClock P s) = s\<lparr>ticks := Suc (ticks s)\<rparr>"
  by (simp_all add: readClock_def)

lemma getFilteredTodos_snd [simp]: "snd (getFilteredTodos P s) = s\<lparr>ticks := Suc (ticks s)\<rparr>"
  by (simp add: getFilteredTodos_def readClock_def)

lemma updateStats_fields [simp]:
  "todos (updateStats P s) = todos s"
  "currentSection (updateStats P s) = currentSection s"
  "localStorage (updateStats P s) = localStorage s"
  "todoInput_value (updateStats P s) = todoInput_value s"
  "todoList_innerHTML (updateStats P s) = todoList_innerHTML s"
  "todoList_dataIds (updateStats P s) = todoList_dataIds s"
  "timeouts (updateStats P s) = timeouts s"
  "ticks (updateStats P s) = Suc (ticks s)"
  by (simp_all add: updateStats_def readClock_def Let_def)

lemma render_fields [simp]:
  "todos (render P s) = todos s"
  "currentSection (render P s) = currentSection s"
  "localStorage (render P s) = localStorage s"
  "todoInput_value (render P s) = todoInput_value s"
  "timeouts (render P s) = timeouts s"
  "ticks (render P s) = Suc (Suc (ticks s))"
  "todoList_dataIds (render P s) = map task_id (fst (getFilteredTodos P s))"
  by (simp_all add: render_def split_beta Let_def)

lemma save_fields [simp]:
  "todos (save s) = todos s"
  "currentSection (save s) = currentSection s"
  "todoInput_value (save s) = todoInput_value s"
  "todoList_innerHTML (save s) = todoList_innerHTML s"
  "todoList_dataIds (save s) = todoList_dataIds s"
  "timeouts (save s) = timeouts s"
  "ticks (save s) = ticks s"
  by (simp_all add: save_def)

lemma todos_toggleTodo:
  "todos (toggleTodo P i s) =
     map (\<lambda>todo. if task_id todo = i then todo\<lparr>completed := \<not> completed todo\<rparr> else todo) (todos s)"
  by (simp add: toggleTodo_def)

lemma getFilteredTodos_filter:
  "\<exists>p. fst (getFilteredTodos P s) = filter p (todos s)"
  by (auto simp: getFilteredTodos_def readClock_def)

subsection \<open>Rendering\<close>







subsection \<open>The parser always moves on\<close>

lemma mapResult_InrD: "mapResult f r = Inr (y, rest) \<Longrightarrow> \<exists>x. r = Inr (x, rest) \<and> y = f x"
  by (auto simp: mapResult_def split: sum.splits)

lemma parseStringChars_shorter:
  "parseStringChars s = Inr (str, rest) \<Longrightarrow> length rest < length s"
proof (induction "length s" arbitrary: s str rule: less_induct)
  case less
  show ?case
  proof (cases s)
    case Nil
    with less.prems show ?thesis by simp
  next
    case (Cons c cs)
    have ih: "length rest < length s'" if "parseStringChars s' = Inr (str', rest)" "length s' \<le> length cs"
      for s' str'
      using less.hyps [of s' str'] that Cons by simp
    from less.prems show ?thesis
      unfolding Cons
      by (auto split: if_splits list.splits option.splits dest!: mapResult_InrD dest!: ih)
  qed
qed

lemma parseNumber_shorter: "parseNumber s = Inr (n, rest) \<Longrightarrow> length rest < length s"
proof -
  assume a: "parseNumber s = Inr (n, rest)"
  define s1 where "s1 = (if (case s of [] \<Rightarrow> False | c # cs \<Rightarrow> c = 0x2D) then tl s else s)"
  have 1: "length s1 \<le> length s" by (simp add: s1_def)
  from a have ne: "takeWhile isDigit s1 \<noteq> []" and r: "rest = dropWhile isDigit s1"
    by (auto simp: parseNumber_def Let_def s1_def split: if_splits)
  have "length (takeWhile isDigit s1) + length (dropWhile isDigit s1) = length s1"
    by (metis length_append takeWhile_dropWhile_id)
  with ne have "length (dropWhile isDigit s1) < length s1" by (cases "takeWhile isDigit s1") auto
  with 1 r show ?thesis by simp
qed

lemma parseLiteral_shorter: "word \<noteq> [] \<Longrightarrow> parseLiteral word v s = Inr (v', rest) \<Longrightarrow> length rest < length s"
  by (cases s) (auto simp: parseLiteral_def split: if_splits)

lemma length_skipWS: "length (skipWS s) \<le> length s"
  by (simp add: skipWS_def length_dropWhile_le)


lemma skipWS_ConsD: "skipWS s = c # cs \<Longrightarrow> length cs < length s"
  using length_skipWS [of s] by simp

lemma parse_shorter:
  "(parseValue s = Inr (v, r) \<longrightarrow> length r < length s) \<and>
   (parseElements s = Inr (vs, r') \<longrightarrow> length r' < length s) \<and>
   (parseMembers s = Inr (ms, r'') \<longrightarrow> length r'' < length s)"
proof (induction "length s" arbitrary: s v r vs r' ms r'' rule: less_induct)
  case less
  have ihE: "length y < length t" if "parseElements t = Inr (x, y)" "length t < length s" for t x y
    using less [of t] that by blast
  have ihM: "length y < length t" if "parseMembers t = Inr (x, y)" "length t < length s" for t x y
    using less [of t] that by blast
  have ihV: "length y < length t" if "parseValue t = Inr (x, y)" "length t < length s" for t x y
    using less [of t] that by blast
  have ihE': "length y < length s" if "parseElements t = Inr (x, y)" "length t < length s" for t x y
    using ihE [OF that] that(2) by simp
  have ihM': "length y < length s" if "parseMembers t = Inr (x, y)" "length t < length s" for t x y
    using ihM [OF that] that(2) by simp
  have V: "length y < length s" if p: "parseValue s = Inr (x, y)" for x y
  proof (cases "skipWS s")
    case Nil
    with p show ?thesis by (simp add: parseValue.simps [of s])
  next
    case (Cons c cs)
    then have cs: "length cs < length s" by (rule skipWS_ConsD)
    have full: "length (c # cs) \<le> length s" using length_skipWS [of s] Cons by simp
    consider (arr) "c = 0x5B" | (obj) "c \<noteq> 0x5B" "c = 0x7B" | (str) "c \<noteq> 0x5B" "c \<noteq> 0x7B" "c = 0x22"
      | (other) "c \<noteq> 0x5B" "c \<noteq> 0x7B" "c \<noteq> 0x22" by blast
    then show ?thesis
    proof cases
      case arr
      with p Cons cs show ?thesis
        by (auto simp: parseValue.simps [of s] split: list.splits if_splits
              dest!: mapResult_InrD skipWS_ConsD dest: ihE)
    next
      case obj
      with p Cons cs show ?thesis
        by (auto simp: parseValue.simps [of s] split: list.splits if_splits
              dest!: mapResult_InrD skipWS_ConsD dest: ihM)
    next
      case str
      with p Cons cs show ?thesis
        by (auto simp: parseValue.simps [of s] dest!: mapResult_InrD parseStringChars_shorter)
    next
      case other
      with p Cons have "(\<exists>w u. w \<noteq> [] \<and> parseLiteral w u (c # cs) = Inr (x, y)) \<or> (\<exists>n. parseNumber (c # cs) = Inr (n, y))"
        by (auto simp: parseValue.simps [of s] js_def split: if_splits dest!: mapResult_InrD)
      then have "length y < length (c # cs)"
        using parseLiteral_shorter parseNumber_shorter by blast
      with full show ?thesis by simp
    qed
  qed
  have E: "length y < length s" if p: "parseElements s = Inr (x, y)" for x y
    using p
    by (auto simp: parseElements.simps [of s] split: sum.splits list.splits if_splits
          dest!: mapResult_InrD V skipWS_ConsD)
       (erule ihE', linarith)
  have M: "length y < length s" if p: "parseMembers s = Inr (x, y)" for x y
    using p
    by (auto simp: parseMembers.simps [of s] split: sum.splits list.splits if_splits
          dest!: mapResult_InrD parseStringChars_shorter skipWS_ConsD dest!: ihV)
       (erule ihM', linarith)
  from V E M show ?case by blast
qed


lemma parseValue_shorter: "parseValue s = Inr (v, rest) \<Longrightarrow> length rest < length s"
  using parse_shorter [of s v rest] by simp

lemma parseElements_unguarded:
  "parseElements s =
     (case parseValue s of
        Inl e \<Rightarrow> Inl e
      | Inr (v, rest) \<Rightarrow>
          (case skipWS rest of
             [] \<Rightarrow> Inl SyntaxError
           | c # cs \<Rightarrow>
               if c = 0x5D then Inr ([v], cs)
               else if c = 0x2C then mapResult ((#) v) (parseElements cs)
               else Inl SyntaxError))"
  by (subst parseElements.simps)
     (auto split: sum.splits list.splits dest!: parseValue_shorter skipWS_ConsD)

lemma parseMembers_unguarded:
  "parseMembers s =
     (case skipWS s of
        [] \<Rightarrow> Inl SyntaxError
      | q # s1 \<Rightarrow>
          if q \<noteq> 0x22 then Inl SyntaxError
          else
            (case parseStringChars s1 of
               Inl e \<Rightarrow> Inl e
             | Inr (k, rest) \<Rightarrow>
                 (case skipWS rest of
                    [] \<Rightarrow> Inl SyntaxError
                  | c # cs \<Rightarrow>
                      if c = 0x3A then
                        (case parseValue cs of
                           Inl e \<Rightarrow> Inl e
                         | Inr (v, rest') \<Rightarrow>
                             (case skipWS rest' of
                                [] \<Rightarrow> Inl SyntaxError
                              | c' # cs' \<Rightarrow>
                                  if c' = 0x7D then Inr ([(k, v)], cs')
                                  else if c' = 0x2C then mapResult ((#) (k, v)) (parseMembers cs')
                                  else Inl SyntaxError))
                      else Inl SyntaxError)))"
  by (subst parseMembers.simps)
     (auto split: sum.splits list.splits dest!: parseValue_shorter parseStringChars_shorter skipWS_ConsD)

subsection \<open>Strings and numbers in JSON\<close>

lemma unat_digit: "d < 10 \<Longrightarrow> unat (0x30 + of_nat d :: jschar) = 48 + d"
  by (simp add: unat_word_ariths unat_of_nat)

lemma isDigit_digit: "d < 10 \<Longrightarrow> isDigit (0x30 + of_nat d)"
  by (simp add: isDigit_def word_le_nat_alt unat_digit)

lemma unat_hexDigit: "d < 16 \<Longrightarrow> unat (hexDigit d) = (if d < 10 then 48 + d else 87 + d)"
  by (simp add: hexDigit_def unat_word_ariths unat_of_nat)

lemma hexValue_hexDigit: "d < 16 \<Longrightarrow> hexValue (hexDigit d) = Some d"
  by (simp add: hexValue_def word_le_nat_alt unat_hexDigit)

lemma hex_recompose:
  assumes "n < 65536"
  shows "((n div 4096 mod 16 * 16 + n div 256 mod 16) * 16 + n div 16 mod 16) * 16 + n mod 16 = (n::nat)"
proof -
  have d2: "n div 256 = n div 16 div 16" and d3: "n div 4096 = n div 16 div 16 div 16"
    by (simp_all add: div_mult2_eq)
  have small: "n div 16 div 16 div 16 < 16"
    using assms by (simp add: div_mult2_eq less_mult_imp_div_less)
  have "n div 16 div 16 div 16 * 16 + n div 16 div 16 mod 16 = n div 16 div 16"
    by (rule div_mult_mod_eq)
  moreover have "n div 16 div 16 * 16 + n div 16 mod 16 = n div 16"
    by (rule div_mult_mod_eq)
  moreover have "n div 16 * 16 + n mod 16 = n"
    by (rule div_mult_mod_eq)
  ultimately show ?thesis
    using small by (simp only: d2 d3 mod_less)
qed

lemma hex4Value_UnicodeEscape:
  "hex4Value (hexDigit (unat c div 4096 mod 16)) (hexDigit (unat c div 256 mod 16))
     (hexDigit (unat c div 16 mod 16)) (hexDigit (unat c mod 16)) = Some c"
proof -
  have "unat c < 65536" using unsigned_less [of c, where ?'a = nat] by simp
  then have "((unat c div 4096 mod 16 * 16 + unat c div 256 mod 16) * 16 + unat c div 16 mod 16) * 16
      + unat c mod 16 = unat c"
    by (rule hex_recompose)
  then have "(of_nat (((unat c div 4096 mod 16 * 16 + unat c div 256 mod 16) * 16 + unat c div 16 mod 16) * 16
      + unat c mod 16) :: jschar) = c"
    by (simp only: of_nat_unat ucast_id)
  then show ?thesis
    by (simp only: hex4Value_def hexValue_hexDigit prod.case option.case mod_less_divisor zero_less_numeral)
qed

lemma parseStringChars_u:
  "parseStringChars (0x5C # 0x75 # h1 # h2 # h3 # h4 # r) =
     (case hex4Value h1 h2 h3 h4 of None \<Rightarrow> Inl SyntaxError
      | Some u \<Rightarrow> mapResult ((#) u) (parseStringChars r))"
  by simp

lemma parseStringChars_UnicodeEscape:
  "parseStringChars (UnicodeEscape c @ r) = mapResult ((#) c) (parseStringChars r)"
  by (simp only: UnicodeEscape_def append.simps parseStringChars_u hex4Value_UnicodeEscape option.case)


lemma parseStringChars_raw:
  "c \<noteq> 0x22 \<Longrightarrow> \<not> c < 0x20 \<Longrightarrow> c \<noteq> 0x5C \<Longrightarrow>
   parseStringChars (c # r) = mapResult ((#) c) (parseStringChars r)"
  by simp

lemma surrogate_raw:
  "isLeadSurrogate c \<or> isTrailSurrogate c \<Longrightarrow> c \<noteq> 0x22 \<and> \<not> c < 0x20 \<and> c \<noteq> 0x5C"
  by (auto simp: isLeadSurrogate_def isTrailSurrogate_def word_le_nat_alt word_less_nat_alt)

lemma parseStringChars_quoteUnit:
  "parseStringChars (quoteUnit c @ r) = mapResult ((#) c) (parseStringChars r)"
proof (cases "c = 0x08 \<or> c = 0x09 \<or> c = 0x0A \<or> c = 0x0C \<or> c = 0x0D \<or> c = 0x22 \<or> c = 0x5C")
  case True
  then show ?thesis by (auto simp: quoteUnit_def)
next
  case False
  show ?thesis
  proof (cases "c < 0x20 \<or> isLeadSurrogate c \<or> isTrailSurrogate c")
    case True
    with False show ?thesis
      by (simp add: quoteUnit_def parseStringChars_UnicodeEscape del: parseStringChars.simps)
  next
    case escaped: False
    with False have "quoteUnit c = [c]" by (simp add: quoteUnit_def)
    with False escaped show ?thesis by (simp add: parseStringChars_raw del: parseStringChars.simps)
  qed
qed

lemma mapResult_Inr [simp]: "mapResult f (Inr (x, r)) = Inr (f x, r)"
  by (simp add: mapResult_def)

lemma mapResult_Inl [simp]: "mapResult f (Inl e) = Inl e"
  by (simp add: mapResult_def)

lemma parseStringChars_quoteChars:
  "parseStringChars (quoteChars str @ 0x22 # rest) = Inr (str, rest)"
proof (induction str rule: quoteChars.induct)
  case 1
  show ?case by simp
next
  case (2 c cs)
  show ?case
  proof (cases "isLeadSurrogate c")
    case False
    with 2 show ?thesis
      by (simp add: parseStringChars_quoteUnit del: parseStringChars.simps)
  next
    case lead: True
    show ?thesis
    proof (cases cs)
      case Nil
      with lead show ?thesis
        by (simp add: parseStringChars_UnicodeEscape del: parseStringChars.simps(2)) simp
    next
      case (Cons d ds)
      show ?thesis
      proof (cases "isTrailSurrogate d")
        case True
        with lead Cons 2 surrogate_raw [of c] surrogate_raw [of d] show ?thesis
          by (simp add: parseStringChars_raw del: parseStringChars.simps)
      next
        case False
        with lead Cons 2 show ?thesis
          by (simp add: parseStringChars_UnicodeEscape del: parseStringChars.simps)
      qed
    qed
  qed
qed

lemma digits_isDigit: "c \<in> set (digits n) \<Longrightarrow> isDigit c"
proof (induction n arbitrary: c rule: digits.induct)
  case (1 n)
  show ?case
  proof (cases "n < 10")
    case True
    with 1(2) show ?thesis by (simp add: digits.simps [of n] isDigit_digit)
  next
    case False
    with 1 show ?thesis by (auto simp: digits.simps [of n] isDigit_digit)
  qed
qed

lemma digits_not_Nil [simp]: "digits n \<noteq> []"
  by (subst digits.simps) simp

lemma digitsValue_snoc: "digitsValue (ds @ [c]) = 10 * digitsValue ds + (unat c - 0x30)"
  by (simp add: digitsValue_def)

lemma digitsValue_digits: "digitsValue (digits n) = n"
proof (induction n rule: digits.induct)
  case (1 n)
  show ?case
  proof (cases "n < 10")
    case True
    then show ?thesis by (simp add: digits.simps [of n] digitsValue_def unat_digit)
  next
    case False
    with 1 show ?thesis by (simp add: digits.simps [of n] digitsValue_snoc unat_digit)
  qed
qed

lemma hd_digits: "0 < n \<Longrightarrow> hd (digits n) \<noteq> 0x30"
proof (induction n rule: digits.induct)
  case (1 n)
  show ?case
  proof (cases "n < 10")
    case True
    with 1(2) have "unat (0x30 + of_nat n :: jschar) \<noteq> unat (0x30 :: jschar)"
      by (simp add: unat_digit)
    then have "(0x30 + of_nat n :: jschar) \<noteq> 0x30" by auto
    with True show ?thesis by (simp add: digits.simps [of n])
  next
    case False
    then have "0 < n div 10" by simp
    with 1(1) False have "hd (digits (n div 10)) \<noteq> 0x30" by simp
    with False show ?thesis by (simp add: digits.simps [of n])
  qed
qed

lemma digits_no_leading_zero: "\<not> (hd (digits n) = 0x30 \<and> 1 < length (digits n))"
proof (cases "n = 0")
  case True
  then show ?thesis by (simp add: digits.simps [of 0])
next
  case False
  then show ?thesis using hd_digits [of n] by simp
qed

lemma takeWhile_digits: "numberEnds rest \<Longrightarrow> takeWhile isDigit (digits n @ rest) = digits n"
  by (cases rest) (auto simp: numberEnds_def takeWhile_append2 digits_isDigit)

lemma dropWhile_digits: "numberEnds rest \<Longrightarrow> dropWhile isDigit (digits n @ rest) = rest"
  by (cases rest) (auto simp: numberEnds_def dropWhile_append2 digits_isDigit)

lemma digits_not_minus: "digits n = c # cs \<Longrightarrow> c \<noteq> 0x2D"
proof
  assume a: "digits n = c # cs" and "c = 0x2D"
  then have "isDigit 0x2D" using digits_isDigit [of c n] by simp
  then show False by (simp add: isDigit_def)
qed

lemma parseNumber_digits:
  assumes "isSafeInteger (int n)" and "numberEnds rest"
  shows "parseNumber (digits n @ rest) = Inr (int n, rest)"
proof -
  obtain c cs where d: "digits n = c # cs" by (cases "digits n") simp_all
  then have c: "c \<noteq> 0x2D" by (rule digits_not_minus)
  have tw: "takeWhile isDigit (c # cs @ rest) = c # cs" and dw: "dropWhile isDigit (c # cs @ rest) = rest"
    using takeWhile_digits [OF assms(2), of n] dropWhile_digits [OF assms(2), of n] d by simp_all
  have lz: "\<not> (c = 0x30 \<and> cs \<noteq> [])"
    using digits_no_leading_zero [of n] d by auto
  have v: "digitsValue (c # cs) = n" using digitsValue_digits [of n] d by simp
  have e: "\<not> (case rest of [] \<Rightarrow> False | c # cs \<Rightarrow> c = 0x2E \<or> c = 0x65 \<or> c = 0x45)"
    using assms(2) by (auto simp: numberEnds_def split: list.splits)
  show ?thesis
    unfolding parseNumber_def d
    using c lz e assms(1) by (simp add: Let_def tw dw v del: takeWhile.simps dropWhile.simps)
qed

lemma parseNumber_Number_toString:
  assumes "isSafeInteger n" and "numberEnds rest"
  shows "parseNumber (Number_toString n @ rest) = Inr (n, rest)"
proof (cases "n < 0")
  case nonneg: False
  then have n: "int (nat n) = n" by simp
  have "parseNumber (digits (nat n) @ rest) = Inr (int (nat n), rest)"
    using assms n by (intro parseNumber_digits) simp_all
  moreover have "Number_toString n = digits (nat n)"
    using nonneg by (simp add: Number_toString_def)
  ultimately show ?thesis
    by (simp only: n)
next
  case neg: True
  then have n: "int (nat (- n)) = - n" by simp
  have "isSafeInteger (- n)" using assms(1) by (simp add: isSafeInteger_def)
  with n have safe: "isSafeInteger (int (nat (- n)))" by simp
  obtain c cs where d: "digits (nat (- n)) = c # cs" by (cases "digits (nat (- n))") simp_all
  have tw: "takeWhile isDigit (c # cs @ rest) = c # cs" and dw: "dropWhile isDigit (c # cs @ rest) = rest"
    using takeWhile_digits [OF assms(2), of "nat (- n)"] dropWhile_digits [OF assms(2), of "nat (- n)"] d by simp_all
  have lz: "\<not> (c = 0x30 \<and> cs \<noteq> [])"
    using digits_no_leading_zero [of "nat (- n)"] d by auto
  have v: "digitsValue (c # cs) = nat (- n)" using digitsValue_digits [of "nat (- n)"] d by simp
  have e: "\<not> (case rest of [] \<Rightarrow> False | c # cs \<Rightarrow> c = 0x2E \<or> c = 0x65 \<or> c = 0x45)"
    using assms(2) by (auto simp: numberEnds_def split: list.splits)
  show ?thesis
    unfolding parseNumber_def Number_toString_def d
    using neg lz e safe n by (simp add: Let_def tw dw v del: takeWhile.simps dropWhile.simps)
qed

subsection \<open>Values in JSON\<close>

lemma skipWS_Cons: "\<not> isJSONWhiteSpace c \<Longrightarrow> skipWS (c # cs) = c # cs"
  by (simp add: skipWS_def)

lemma skipWS_Nil [simp]: "skipWS [] = []"
  by (simp add: skipWS_def)

lemma isDigit_not_special:
  "isDigit c \<Longrightarrow> \<not> isJSONWhiteSpace c \<and> c \<noteq> 0x5B \<and> c \<noteq> 0x7B \<and> c \<noteq> 0x22 \<and> c \<noteq> 0x74 \<and> c \<noteq> 0x66 \<and> c \<noteq> 0x6E"
  by (auto simp: isDigit_def isJSONWhiteSpace_def word_le_nat_alt)

lemma Number_toString_Cons:
  "\<exists>c cs. Number_toString n = c # cs \<and> (c = 0x2D \<or> isDigit c)"
proof (cases "n < 0")
  case True
  then show ?thesis by (simp add: Number_toString_def)
next
  case False
  obtain c cs where d: "digits (nat n) = c # cs" by (cases "digits (nat n)") simp_all
  then have "isDigit c" using digits_isDigit [of c "nat n"] by simp
  with False d show ?thesis by (simp add: Number_toString_def)
qed

lemma parseValue_number:
  assumes "isSafeInteger n" and "numberEnds rest"
  shows "parseValue (Number_toString n @ rest) = Inr (JNum n, rest)"
proof -
  obtain c cs where d: "Number_toString n = c # cs" and c: "c = 0x2D \<or> isDigit c"
    using Number_toString_Cons by blast
  have p: "parseNumber (c # cs @ rest) = Inr (n, rest)"
    using parseNumber_Number_toString [OF assms] d by simp
  from c have ns: "\<not> isJSONWhiteSpace c \<and> c \<noteq> 0x5B \<and> c \<noteq> 0x7B \<and> c \<noteq> 0x22 \<and> c \<noteq> 0x74 \<and> c \<noteq> 0x66 \<and> c \<noteq> 0x6E"
    using isDigit_not_special [of c] by (auto simp: isJSONWhiteSpace_def)
  show ?thesis
    unfolding d using c ns p by (subst parseValue.simps) (simp add: skipWS_Cons)
qed

lemma parseValue_string: "parseValue (QuoteJSONString str @ rest) = Inr (JStr str, rest)"
  by (subst parseValue.simps)
     (simp add: QuoteJSONString_def skipWS_Cons isJSONWhiteSpace_def parseStringChars_quoteChars
        del: parseStringChars.simps)

lemma parseValue_bool:
  "parseValue (JSON_stringify (JBool b) @ rest) = Inr (JBool b, rest)"
  by (subst parseValue.simps)
     (simp add: js_def skipWS_Cons isJSONWhiteSpace_def parseLiteral_def)

lemma parseMembers_key:
  "parseMembers (QuoteJSONString k @ 0x3A # tail) =
     (case parseValue tail of
        Inl e \<Rightarrow> Inl e
      | Inr (v, rest') \<Rightarrow>
          (case skipWS rest' of
             [] \<Rightarrow> Inl SyntaxError
           | c' # cs' \<Rightarrow>
               if c' = 0x7D then Inr ([(k, v)], cs')
               else if c' = 0x2C \<and> length cs' < length (QuoteJSONString k @ 0x3A # tail) then
                 mapResult ((#) (k, v)) (parseMembers cs')
               else Inl SyntaxError))"
  by (subst parseMembers.simps)
     (simp add: QuoteJSONString_def skipWS_Cons isJSONWhiteSpace_def parseStringChars_quoteChars
        del: parseStringChars.simps)

lemma numberEnds_comma [simp]: "numberEnds (0x2C # rest)"
  by (simp add: numberEnds_def isDigit_def)

lemma stringify_task:
  "JSON_stringify (json_of_task todo) =
     0x7B # QuoteJSONString (js ''id'') @ 0x3A # Number_toString (task_id todo) @
     0x2C # QuoteJSONString (js ''text'') @ 0x3A # QuoteJSONString (task_text todo) @
     0x2C # QuoteJSONString (js ''completed'') @ 0x3A # JSON_stringify (JBool (completed todo)) @
     0x2C # QuoteJSONString (js ''createdAt'') @ 0x3A # QuoteJSONString (createdAt todo) @ [0x7D]"
  by (simp add: json_of_task_def)

lemma QuoteJSONString_Cons: "QuoteJSONString k @ r = 0x22 # quoteChars k @ 0x22 # r"
  by (simp add: QuoteJSONString_def)

lemma parseValue_task:
  assumes "isSafeInteger (task_id todo)"
  shows "parseValue (JSON_stringify (json_of_task todo) @ rest) = Inr (json_of_task todo, rest)"
proof -
  have "parseValue (JSON_stringify (json_of_task todo) @ rest) =
        mapResult JObj (parseMembers (QuoteJSONString (js ''id'') @ 0x3A # Number_toString (task_id todo) @
     0x2C # QuoteJSONString (js ''text'') @ 0x3A # QuoteJSONString (task_text todo) @
     0x2C # QuoteJSONString (js ''completed'') @ 0x3A # JSON_stringify (JBool (completed todo)) @
     0x2C # QuoteJSONString (js ''createdAt'') @ 0x3A # QuoteJSONString (createdAt todo) @ 0x7D # rest))"
    unfolding stringify_task
    by (subst parseValue.simps) (simp add: skipWS_Cons isJSONWhiteSpace_def QuoteJSONString_Cons)
  also have "\<dots> = Inr (json_of_task todo, rest)"
    using assms
    by (simp add: parseMembers_key parseValue_number parseValue_string parseValue_bool
          skipWS_Cons isJSONWhiteSpace_def json_of_task_def
        del: JSON_stringify.simps)
  finally show ?thesis .
qed

lemma stringify_task_Cons: "\<exists>cs. JSON_stringify (json_of_task todo) = 0x7B # cs"
  by (simp add: stringify_task)

lemma parseElements_tasks:
  assumes "list_all (\<lambda>todo. isSafeInteger (task_id todo)) (t # ts)"
  shows "parseElements (joinWith [0x2C] (map (\<lambda>todo. JSON_stringify (json_of_task todo)) (t # ts)) @ 0x5D # rest)
         = Inr (map json_of_task (t # ts), rest)"
  using assms
proof (induction ts arbitrary: t)
  case Nil
  then show ?case
    by (subst parseElements.simps) (simp add: parseValue_task skipWS_Cons isJSONWhiteSpace_def del: JSON_stringify.simps)
next
  case (Cons u us)
  then have ih: "parseElements (joinWith [0x2C] (map (\<lambda>todo. JSON_stringify (json_of_task todo)) (u # us)) @ 0x5D # rest)
         = Inr (map json_of_task (u # us), rest)"
    by simp
  from Cons.prems have safe: "isSafeInteger (task_id t)" by simp
  show ?case
    by (subst parseElements.simps)
       (simp add: parseValue_task [OF safe] skipWS_Cons isJSONWhiteSpace_def ih [simplified]
          del: JSON_stringify.simps)
qed

lemma parseValue_todos:
  assumes "list_all (\<lambda>todo. isSafeInteger (task_id todo)) ts"
  shows "parseValue (JSON_stringify (JArr (map json_of_task ts)) @ rest) = Inr (JArr (map json_of_task ts), rest)"
proof (cases ts)
  case Nil
  then show ?thesis
    by (subst parseValue.simps) (simp add: skipWS_Cons isJSONWhiteSpace_def)
next
  case (Cons t us)
  obtain cs where cs: "JSON_stringify (json_of_task t) = 0x7B # cs"
    using stringify_task_Cons by blast
  have e: "parseElements (joinWith [0x2C] (map (\<lambda>todo. JSON_stringify (json_of_task todo)) (t # us)) @ 0x5D # rest)
         = Inr (map json_of_task (t # us), rest)"
    using assms Cons by (intro parseElements_tasks) simp
  have j: "\<exists>ds. joinWith [0x2C] (map (\<lambda>todo. JSON_stringify (json_of_task todo)) (t # us)) = 0x7B # ds"
    using cs by (cases us) simp_all
  then obtain ds where ds: "joinWith [0x2C] (map (\<lambda>todo. JSON_stringify (json_of_task todo)) (t # us)) = 0x7B # ds"
    by blast
  have "parseValue (0x5B # (0x7B # ds) @ 0x5D # rest) = mapResult JArr (parseElements ((0x7B # ds) @ 0x5D # rest))"
    by (subst parseValue.simps) (simp add: skipWS_Cons isJSONWhiteSpace_def)
  then show ?thesis
    using e ds unfolding Cons by (simp add: comp_def del: joinWith.simps)
qed

lemma task_of_json_of_task: "task_of_json (json_of_task todo) = Some todo"
  by (simp add: task_of_json_def json_of_task_def)

lemma todos_of_json_of_tasks: "todos_of_json (JArr (map json_of_task ts)) = Inr ts"
  by (simp add: todos_of_json_def task_of_json_of_task list_all_iff comp_def)

lemma JSON_parse_stringify_todos:
  assumes "list_all (\<lambda>todo. isSafeInteger (task_id todo)) ts"
  shows "JSON_parse (JSON_stringify (JArr (map json_of_task ts))) = Inr (JArr (map json_of_task ts))"
  using parseValue_todos [OF assms, of "[]"] by (simp add: JSON_parse_def del: JSON_stringify.simps)

lemma stringify_not_empty: "JSON_stringify (JArr vs) \<noteq> []"
  by simp

lemma loadData_current:
  "JSON_parse str = Inr (JArr (map json_of_task ts)) \<Longrightarrow> localStorage s (js ''todos'') = Some str \<Longrightarrow>
   str \<noteq> [] \<Longrightarrow> loadData P s = Inr (s\<lparr>todos := ts\<rparr>)"
  by (simp add: loadData_def truthy_def todos_of_json_of_tasks)

subsection \<open>Loading\<close>

lemma JSON_parse_Nil: "JSON_parse [] = Inl SyntaxError"
  by (simp add: JSON_parse_def parseValue.simps)



lemma loadData_legacy:
  assumes "localStorage s (js ''todos'') = None"
    and "localStorage s (js ''todoList'') = Some old"
    and "JSON_parse old = Inr parsed"
    and "legacy_of_json parsed = Inr (todo, done)"
  shows "loadData P s =
    Inr ((save (pushAll P True 1000 0 done (pushAll P False 0 0 todo (s\<lparr>todos := []\<rparr>))))
          \<lparr>localStorage := (localStorage (save (pushAll P True 1000 0 done (pushAll P False 0 0 todo (s\<lparr>todos := []\<rparr>)))))
              (js ''todoList'' := None)\<rparr>)"
proof -
  have "old \<noteq> []" using assms(3) JSON_parse_Nil by auto
  then show ?thesis
    using assms by (simp add: loadData_def truthy_def Let_def)
qed

lemma pushAll_localStorage [simp]: "localStorage (pushAll P d off i txts s) = localStorage s"
  by (induction txts arbitrary: i s) (simp_all add: readClock_def Let_def split_beta)

subsection \<open>Sessions\<close>


lemma reachable_run: "reachable P s \<Longrightarrow> reachable P (run P s evs)"
  unfolding run_def by (induction evs arbitrary: s) (simp_all add: reachable.after)


lemma trim_buy_milk: "trim (js ''  buy milk  '') = js ''buy milk''"
  by (simp add: trim_def js_def isWhiteSpace_def)

lemma trim_call_mom: "trim (js ''call mom'') = js ''call mom''"
  by (simp add: trim_def js_def isWhiteSpace_def)

lemma js_not_Nil: "js (c # cs) \<noteq> []"
  by (simp add: js_def)

lemma exampleSession_fields:
  "todos exampleSession =
     [\<lparr>task_id = 1700000000006, task_text = js ''call mom'', completed = False,
        createdAt = js ''2023-11-14T22:13:20.000Z''\<rparr>,
      \<lparr>task_id = 1700000000002, task_text = js ''buy milk'', completed = True,
        createdAt = js ''2023-11-14T22:13:20.000Z''\<rparr>]"
  "currentSection exampleSession = js ''all''"
  "timeouts exampleSession = []"
  "todoList_dataIds exampleSession = [1700000000006]"
  by (simp_all add: exampleSession_def run_def startState_def pageLoaded_def addTodo_def toggleTodo_def
        trim_def isWhiteSpace_def js_def dateString_def readClock_def tickingPlatform_def platformAt_def
        getFilteredTodos_def Let_def split_beta)







subsection \<open>Adding, and the examples\<close>

lemma addTodo_blank:
  "trim (todoInput_value s) = [] \<Longrightarrow> addTodo P s = s"
  by (simp add: addTodo_def)

lemma addTodo_prepends:
  "trim (todoInput_value s) \<noteq> [] \<Longrightarrow>
   todos (addTodo P s) =
     \<lparr>task_id = Date_now P (ticks s), task_text = trim (todoInput_value s), completed = False,
      createdAt = toISOString P (Date_now P (Suc (ticks s)))\<rparr> # todos s"
  by (simp add: addTodo_def readClock_def Let_def)

lemma toggleTodo_distinct:
  "distinct (map task_id (todos (toggleTodo P i s))) = distinct (map task_id (todos s))"
proof -
  have "map task_id (todos (toggleTodo P i s)) = map task_id (todos s)"
    by (simp add: todos_toggleTodo comp_def cong: map_cong)
  then show ?thesis by simp
qed

lemma deleteTodo_timeout_distinct:
  "distinct (map task_id (todos s)) \<Longrightarrow> distinct (map task_id (todos (deleteTodo_timeout P i s)))"
  by (simp add: deleteTodo_timeout_def distinct_map_filter)




lemma legacy_one_completed:
  \<open>JSON_parse (js ''{"todo":[],"completed":["c"]}'') = Inr (JObj [(js ''todo'', JArr []), (js ''completed'', JArr [JStr (js ''c'')])])\<close>
  by code_simp

section \<open>The claims of the specification\<close>

subsection \<open>C1 and C2: ids\<close>

text \<open>
  C1. Every task of the collection has an id of its own, in every state the
  application can reach. The code takes the id from the clock
  (\<^verbatim>\<open>Date.now()\<close>, plus the index and 1000 during the migration) and
  never compares it with the ids in use. Here a storage of the earlier format
  with one completed task is migrated, which gives that task the id of the
  millisecond one second ahead, and a task is added one second later: the
  state reached holds two tasks with the same id.
\<close>

theorem ids_collide_after_migration:
  \<open>\<exists>s0. TodoApp secondLaterPlatform (legacyStorage (js ''{"todo":[],"completed":["c"]}'')) = Inr s0 \<and>
     reachable secondLaterPlatform (run secondLaterPlatform s0 [Input (js ''x''), Add]) \<and>
     map task_id (todos s0) = [1700000001000] \<and>
     map task_id (todos (run secondLaterPlatform s0 [Input (js ''x''), Add])) = [1700000001000, 1700000001000] \<and>
     \<not> distinct (map task_id (todos (run secondLaterPlatform s0 [Input (js ''x''), Add])))\<close>
proof -
  let ?st = \<open>legacyStorage (js ''{"todo":[],"completed":["c"]}'')\<close>
  let ?P = secondLaterPlatform
  have none: "localStorage (pageLoaded ?st) (js ''todos'') = None"
    by (simp add: pageLoaded_def legacyStorage_def js_def)
  have old: \<open>localStorage (pageLoaded ?st) (js ''todoList'') = Some (js ''{"todo":[],"completed":["c"]}'')\<close>
    by (simp add: pageLoaded_def legacyStorage_def)
  have leg: "legacy_of_json (JObj [(js ''todo'', JArr []), (js ''completed'', JArr [JStr (js ''c'')])]) = Inr ([], [js ''c''])"
    by (simp add: legacy_of_json_def getProperty_def strings_of_json_def js_def)
  define s1 where "s1 = (save (pushAll ?P True 1000 0 [js ''c''] (pushAll ?P False 0 0 [] ((pageLoaded ?st)\<lparr>todos := []\<rparr>))))
          \<lparr>localStorage := (localStorage (save (pushAll ?P True 1000 0 [js ''c''] (pushAll ?P False 0 0 [] ((pageLoaded ?st)\<lparr>todos := []\<rparr>)))))
              (js ''todoList'' := None)\<rparr>"
  have load: "loadData ?P (pageLoaded ?st) = Inr s1"
    unfolding s1_def by (rule loadData_legacy [OF none old legacy_one_completed leg])
  define s0 where "s0 = render ?P (s1\<lparr>currentSection := js ''all''\<rparr>)"
  have app: "TodoApp ?P ?st = Inr s0"
    by (simp add: TodoApp_def load s0_def)
  have s1: "todos s1 = [\<lparr>task_id = 1700000001000, task_text = js ''c'', completed = True,
        createdAt = js ''2023-11-14T22:13:20.000Z''\<rparr>]" "ticks s1 = 2" "todoInput_value s1 = []"
    by (simp_all add: s1_def readClock_def Let_def secondLaterPlatform_def platformAt_def pageLoaded_def)
  have ids0: "map task_id (todos s0) = [1700000001000]"
    by (simp add: s0_def s1)
  have ids: "map task_id (todos (run ?P s0 [Input (js ''x''), Add])) = [1700000001000, 1700000001000]"
    by (simp add: run_def addTodo_def s0_def s1 trim_def isWhiteSpace_def js_def readClock_def
          secondLaterPlatform_def platformAt_def Let_def split_beta)
  have "reachable ?P (run ?P s0 [Input (js ''x''), Add])"
    by (rule reachable_run) (rule reachable.start [OF app])
  with app ids0 ids show ?thesis by (intro exI [of _ s0]) simp
qed

text \<open>
  C2. Adding a text whose trim is empty changes nothing, and adding any other
  text puts one new task in front of the collection, with the trimmed text,
  not completed, created now and with a fresh id (\<open>addTodo_blank\<close> and
  \<open>addTodo_prepends\<close> say what the code does). The id is the reading of the
  clock and need not be fresh: of two tasks added while the clock shows the
  same millisecond, the second gets the id of the first.
\<close>

theorem addTodo_id_already_used:
  "todos (run stalledPlatform (startState stalledPlatform) [Input (js ''a''), Add]) =
     [\<lparr>task_id = 1700000000000, task_text = js ''a'', completed = False,
        createdAt = js ''2023-11-14T22:13:20.000Z''\<rparr>] \<and>
   todos (run stalledPlatform (startState stalledPlatform) [Input (js ''a''), Add, Input (js ''b''), Add]) =
     [\<lparr>task_id = 1700000000000, task_text = js ''b'', completed = False,
        createdAt = js ''2023-11-14T22:13:20.000Z''\<rparr>,
      \<lparr>task_id = 1700000000000, task_text = js ''a'', completed = False,
        createdAt = js ''2023-11-14T22:13:20.000Z''\<rparr>]"
  by (simp add: run_def startState_def pageLoaded_def addTodo_def
        trim_def isWhiteSpace_def js_def readClock_def stalledPlatform_def platformAt_def Let_def split_beta)

subsection \<open>C3 and C4: toggling\<close>

text \<open>
  C3. Toggling an id negates \<open>completed\<close> in the tasks with that id and
  changes nothing else: ids, texts and creation times stay as they are, task
  by task and in the same order, and the flag of every other task stays.
  Toggling the same id twice gives the collection back.
\<close>

theorem toggleTodo_flips_only_matching:
  "map task_id (todos (toggleTodo P i s)) = map task_id (todos s) \<and>
   map task_text (todos (toggleTodo P i s)) = map task_text (todos s) \<and>
   map createdAt (todos (toggleTodo P i s)) = map createdAt (todos s) \<and>
   map completed (todos (toggleTodo P i s)) =
     map (\<lambda>todo. if task_id todo = i then \<not> completed todo else completed todo) (todos s) \<and>
   todos (toggleTodo P i (toggleTodo P i s)) = todos s"
  by (simp add: todos_toggleTodo comp_def map_idI cong: map_cong)

text \<open>
  C4. Toggling an id that no task of the collection has leaves the collection
  as it is.
\<close>

theorem toggleTodo_absent_id:
  "i \<notin> task_id ` set (todos s) \<Longrightarrow> todos (toggleTodo P i s) = todos s"
  by (simp add: todos_toggleTodo) (rule map_idI, auto)

theorem toggleTodo_absent_id_witness:
  "5 \<notin> task_id ` set (todos exampleSession) \<and>
   todos (toggleTodo tickingPlatform 5 exampleSession) = todos exampleSession"
  using toggleTodo_absent_id [of 5 exampleSession tickingPlatform]
  by (simp add: exampleSession_fields)

subsection \<open>C5: deleting\<close>




subsection \<open>C6 and C10: the filter\<close>

text \<open>
  C6. \<open>getFilteredTodos\<close> reads the clock and changes nothing else. Under
  \<^verbatim>\<open>all\<close> it returns the tasks that are not completed, under
  \<^verbatim>\<open>completed\<close> the completed ones, under \<^verbatim>\<open>today\<close> the tasks that are
  not completed and whose creation time falls on the calendar day of the clock,
  and under any other section what it returns under \<^verbatim>\<open>all\<close>.
\<close>

theorem getFilteredTodos_sections:
  "snd (getFilteredTodos P s) = s\<lparr>ticks := Suc (ticks s)\<rparr> \<and>
   fst (getFilteredTodos P (s\<lparr>currentSection := js ''all''\<rparr>)) = filter (\<lambda>todo. completed todo = False) (todos s) \<and>
   fst (getFilteredTodos P (s\<lparr>currentSection := js ''completed''\<rparr>)) = filter (\<lambda>todo. completed todo = True) (todos s) \<and>
   fst (getFilteredTodos P (s\<lparr>currentSection := js ''today''\<rparr>)) =
     filter (\<lambda>todo. completed todo = False \<and> dateString P (createdAt todo) = toDateString P (Date_now P (ticks s))) (todos s) \<and>
   (c \<noteq> js ''today'' \<and> c \<noteq> js ''completed'' \<longrightarrow>
      fst (getFilteredTodos P (s\<lparr>currentSection := c\<rparr>)) = fst (getFilteredTodos P (s\<lparr>currentSection := js ''all''\<rparr>)))"
  by (auto simp: getFilteredTodos_def readClock_def js_def intro: filter_cong)

theorem getFilteredTodos_sections_witness:
  "js ''archive'' \<noteq> js ''today'' \<and> js ''archive'' \<noteq> js ''completed'' \<and>
   fst (getFilteredTodos tickingPlatform (exampleSession\<lparr>currentSection := js ''archive''\<rparr>))
     = [\<lparr>task_id = 1700000000006, task_text = js ''call mom'', completed = False,
         createdAt = js ''2023-11-14T22:13:20.000Z''\<rparr>]"
  using getFilteredTodos_sections [of tickingPlatform exampleSession "js ''archive''"]
  by (simp add: exampleSession_fields) (simp add: js_def)

text \<open>
  C10. The filtered view is a subsequence of the collection, and a task it
  returns occurs in it as often as in the collection.
\<close>

theorem getFilteredTodos_subseq:
  "subseq (fst (getFilteredTodos P s)) (todos s) \<and>
   (\<forall>todo. todo \<in> set (fst (getFilteredTodos P s)) \<longrightarrow>
      count_list (fst (getFilteredTodos P s)) todo = count_list (todos s) todo)"
proof -
  obtain p where p: "fst (getFilteredTodos P s) = filter p (todos s)"
    using getFilteredTodos_filter by blast
  have "count_list (filter p xs) x = count_list xs x" if "p x" for xs :: "task list" and x
    using that by (induction xs) auto
  then show ?thesis
    by (simp add: p)
qed

theorem getFilteredTodos_subseq_witness:
  "hd (todos exampleSession) \<in> set (fst (getFilteredTodos tickingPlatform exampleSession)) \<and>
   count_list (fst (getFilteredTodos tickingPlatform exampleSession)) (hd (todos exampleSession)) = 1"
  using getFilteredTodos_subseq [of tickingPlatform exampleSession]
  by (simp add: exampleSession_fields getFilteredTodos_def js_def split_beta)

subsection \<open>C7 and C8: storage\<close>



text \<open>
  C8. Saving a collection and loading from the storage that results, in any
  session, gives the collection back, field for field and in order. The ids are
  safe integers, as every clock reading is.
\<close>

theorem save_then_loadData:
  assumes "list_all (\<lambda>todo. isSafeInteger (task_id todo)) ts"
  shows "loadData P (fresh\<lparr>localStorage := localStorage (save (s\<lparr>todos := ts\<rparr>))\<rparr>)
         = Inr (fresh\<lparr>localStorage := localStorage (save (s\<lparr>todos := ts\<rparr>)), todos := ts\<rparr>)"
  by (rule loadData_current [OF JSON_parse_stringify_todos [OF assms]])
     (simp_all add: save_def del: JSON_stringify.simps add: stringify_not_empty)

theorem save_then_loadData_witness:
  "list_all (\<lambda>todo. isSafeInteger (task_id todo)) (todos exampleSession) \<and>
   (\<exists>s'. loadData tickingPlatform
            ((pageLoaded Map.empty)\<lparr>localStorage := localStorage (save (exampleSession\<lparr>todos := todos exampleSession\<rparr>))\<rparr>)
          = Inr s' \<and> todos s' = todos exampleSession)"
proof -
  have safe: "list_all (\<lambda>todo. isSafeInteger (task_id todo)) (todos exampleSession)"
    by (simp add: exampleSession_fields isSafeInteger_def)
  show ?thesis
    using safe save_then_loadData [OF safe, where P = tickingPlatform and fresh = "pageLoaded Map.empty"
        and s = exampleSession]
    by simp
qed

subsection \<open>C9: escaping\<close>



end
